theory Spec2Isabelle
  imports Complex_Main "HOL-Library.Sublist"
begin

section \<open>Python primitives used by the analysis code\<close>

text \<open>
  The analysis engine of \<^verbatim>\<open>oscilloscope_analyzer.py\<close> works on Python floats.
  The model is about finite samples: a float is a real number, and ordering, \<^verbatim>\<open>abs\<close>,
  subtraction and the comparisons against limits are those of the reals.  Infinities and
  NaN are outside the model, and so is the rounding of a result, with two exceptions, where
  the rounding decides whether the code raises: a square that leaves the range of the
  doubles (\<open>py_pow2\<close>), and a quotient that is rounded to zero and then used as a divisor
  (\<open>float_quotient\<close>).  Every operation that can raise is a function into
  \<open>py_error + 'a\<close>, with \<open>Inl\<close> carrying the exception.
\<close>

datatype py_error = ValueError | IndexError | ZeroDivisionError | OverflowError

definition bind_res :: "py_error + 'a \<Rightarrow> ('a \<Rightarrow> py_error + 'b) \<Rightarrow> py_error + 'b" where
  "bind_res r f = (case r of Inl e \<Rightarrow> Inl e | Inr v \<Rightarrow> f v)"

text \<open>\<^verbatim>\<open>min(xs)\<close> and \<^verbatim>\<open>max(xs)\<close>: ValueError on the empty list, otherwise a scan
  from the first element.\<close>

definition py_min :: "real list \<Rightarrow> py_error + real" where
  "py_min xs = (case xs of [] \<Rightarrow> Inl ValueError | x # rest \<Rightarrow> Inr (fold min rest x))"

definition py_max :: "real list \<Rightarrow> py_error + real" where
  "py_max xs = (case xs of [] \<Rightarrow> Inl ValueError | x # rest \<Rightarrow> Inr (fold max rest x))"

text \<open>\<^verbatim>\<open>xs.index(v)\<close>: the first position holding \<open>v\<close>, ValueError when there is none.\<close>

fun py_index :: "real list \<Rightarrow> real \<Rightarrow> py_error + nat" where
  "py_index [] v = Inl ValueError"
| "py_index (x # xs) v =
     (if x = v then Inr 0
      else (case py_index xs v of Inl e \<Rightarrow> Inl e | Inr i \<Rightarrow> Inr (Suc i)))"

text \<open>\<^verbatim>\<open>xs[a:b]\<close> for non-negative bounds: clipped to the list, never raises.\<close>

definition py_slice :: "'a list \<Rightarrow> nat \<Rightarrow> nat \<Rightarrow> 'a list" where
  "py_slice xs a b = take (b - a) (drop a xs)"

text \<open>\<^verbatim>\<open>xs[i]\<close>: a negative index counts from the end, IndexError out of range.\<close>

definition py_getitem :: "'a list \<Rightarrow> int \<Rightarrow> py_error + 'a" where
  "py_getitem xs i =
     (if 0 \<le> i \<and> i < int (length xs) then Inr (xs ! nat i)
      else if i < 0 \<and> - int (length xs) \<le> i then Inr (xs ! nat (int (length xs) + i))
      else Inl IndexError)"

text \<open>\<^verbatim>\<open>a / b\<close>: ZeroDivisionError for a zero divisor.\<close>

definition py_truediv :: "real \<Rightarrow> real \<Rightarrow> py_error + real" where
  "py_truediv a b = (if b = 0 then Inl ZeroDivisionError else Inr (a / b))"

text \<open>The value of the float quotient \<^verbatim>\<open>a / b\<close> for a non-zero divisor: a quotient of
  magnitude at most \<open>2 ^ - 1075\<close>, half the least positive double, is rounded to zero.\<close>

definition float_quotient :: "real \<Rightarrow> real \<Rightarrow> real" where
  "float_quotient a b = (if \<bar>a / b\<bar> \<le> 1 / 2 ^ 1075 then 0 else a / b)"

text \<open>\<^verbatim>\<open>v ** 2\<close> on a float: OverflowError when the square leaves the range of the
  doubles, which for a double \<open>v\<close> is the case exactly when \<open>\<bar>v\<bar> \<ge> 2 ^ 512\<close>.
  \<open>py_squares\<close> is the list comprehension \<^verbatim>\<open>[v**2 for v in values]\<close>: it raises at the
  first such element.\<close>

definition py_pow2 :: "real \<Rightarrow> py_error + real" where
  "py_pow2 v = (if 2 ^ 512 \<le> \<bar>v\<bar> then Inl OverflowError else Inr (v\<^sup>2))"

fun py_squares :: "real list \<Rightarrow> py_error + real list" where
  "py_squares [] = Inr []"
| "py_squares (v # vs) =
     bind_res (py_pow2 v) (\<lambda>s. bind_res (py_squares vs) (\<lambda>ss. Inr (s # ss)))"

text \<open>\<^verbatim>\<open>np.mean\<close>, \<^verbatim>\<open>np.std\<close> (population standard deviation), \<^verbatim>\<open>np.sqrt\<close> and
  \<^verbatim>\<open>np.log\<close> on the reals.  The code calls the first three on non-empty lists only.\<close>

definition np_mean :: "real list \<Rightarrow> real" where
  "np_mean xs = sum_list xs / real (length xs)"

definition np_std :: "real list \<Rightarrow> real" where
  "np_std xs = sqrt (np_mean (map (\<lambda>v. (v - np_mean xs)\<^sup>2) xs))"

definition np_log :: "real \<Rightarrow> real" where
  "np_log x = ln x"

section \<open>Data model\<close>

text \<open>The dictionaries built by \<^verbatim>\<open>AnalysisWorker\<close>, one record per dictionary
  shape, fields named after the keys.\<close>

record sample =
  time :: real
  ch1 :: real
  ch2 :: real

record trigger_point =
  tp_time :: real
  tp_index :: nat
  tp_current :: real

record ringdown =
  ringdown_voltage :: real
  decay_constant :: real

record ch1_stats =
  ch1_min :: real
  ch1_max :: real
  ch1_peak_to_peak :: real
  ch1_rms :: real
  ch1_noise :: real
  ch1_ringdown :: ringdown

record ch2_stats =
  ch2_min :: real
  ch2_max :: real
  ch2_peak_to_peak :: real
  ch2_rms :: real

record trigger_info =
  threshold :: real
  points :: "trigger_point list"
  count :: nat

record metadata =
  data_points :: nat
  sample_rate :: real
  duration :: real
  time_start :: real
  time_end :: real

record analysis =
  raw_data :: "sample list"
  an_ch1 :: ch1_stats
  an_ch2 :: ch2_stats
  an_trigger :: trigger_info
  an_metadata :: metadata

text \<open>\<^verbatim>\<open>calculate_analysis\<close> returns either the empty dictionary \<^verbatim>\<open>{}\<close> or the
  full dictionary; \<^verbatim>\<open>{}\<close> is also what \<^verbatim>\<open>run\<close> emits after an exception.\<close>

datatype analysis_dict = EmptyDict | Analysis analysis

section \<open>Ringdown estimator\<close>

text \<open>\<^verbatim>\<open>AnalysisWorker.calculate_ringdown\<close>.  The division of \<^verbatim>\<open>np.log(...)\<close> by the
  segment length is a numpy division (infinite with a warning on a zero divisor); it is
  modelled with the raising division, the stricter of the two.\<close>

definition zero_ringdown :: ringdown where
  "zero_ringdown = \<lparr>ringdown_voltage = 0, decay_constant = 0\<rparr>"

definition calculate_ringdown :: "real list \<Rightarrow> py_error + ringdown" where
  "calculate_ringdown values =
     (if length values < 50 then Inr zero_ringdown
      else
        let abs_values = map abs values in
        bind_res (py_max abs_values) (\<lambda>m.
        bind_res (py_index abs_values m) (\<lambda>max_idx.
        if int max_idx \<ge> int (length values) - 20 then Inr zero_ringdown
        else
          let decay_segment = py_slice values max_idx (min (max_idx + 100) (length values)) in
          bind_res (py_getitem decay_segment 0) (\<lambda>first.
          bind_res (py_getitem decay_segment (- 1)) (\<lambda>final.
          let initial_amp = \<bar>first\<bar>;
              final_amp = \<bar>final\<bar>;
              rv = (initial_amp - final_amp) * 1000
          in
          bind_res
            (if initial_amp > final_amp \<and> final_amp > 0
             then bind_res (py_truediv initial_amp final_amp) (\<lambda>q.
                    py_truediv (np_log q) (real (length decay_segment)))
             else Inr 0) (\<lambda>dc.
          Inr \<lparr>ringdown_voltage = rv, decay_constant = dc\<rparr>))))))"

text \<open>The reference definition of the specification (section 4.4), word for word:
  the peak index is the first index of maximum absolute value.\<close>

fun peak_index :: "real list \<Rightarrow> nat" where
  "peak_index [] = 0"
| "peak_index (x # xs) =
     (if list_all (\<lambda>y. \<bar>y\<bar> \<le> \<bar>x\<bar>) xs then 0 else Suc (peak_index xs))"

definition ringdown_reference :: "real list \<Rightarrow> ringdown" where
  "ringdown_reference values =
     (if length values < 50 \<or> length values - 20 \<le> peak_index values then zero_ringdown
      else
        let window = take 100 (drop (peak_index values) values);
            initial_amplitude = \<bar>hd window\<bar>;
            final_amplitude = \<bar>last window\<bar>
        in \<lparr>ringdown_voltage = (initial_amplitude - final_amplitude) * 1000,
            decay_constant =
              (if initial_amplitude > final_amplitude \<and> final_amplitude > 0
               then ln (initial_amplitude / final_amplitude) / real (length window)
               else 0)\<rparr>)"

section \<open>Trigger detector\<close>

text \<open>The loop of \<^verbatim>\<open>calculate_analysis\<close> over \<^verbatim>\<open>range(1, len(data))\<close>.  The loop state
  is the pair of \<^verbatim>\<open>trigger_points\<close> and \<^verbatim>\<open>in_trigger\<close>; one iteration is
  \<open>trigger_step\<close>.  Both reads \<^verbatim>\<open>data[i-1]\<close> and \<^verbatim>\<open>data[i]\<close> are in range for every
  \<open>i\<close> of the loop.\<close>

definition trigger_step ::
  "sample list \<Rightarrow> real \<Rightarrow> nat \<Rightarrow> trigger_point list \<times> bool \<Rightarrow> trigger_point list \<times> bool" where
  "trigger_step data trigger_threshold i st =
     (let trigger_points = fst st;
          in_trigger = snd st;
          prev_current = \<bar>ch2 (data ! (i - 1))\<bar>;
          current_current = \<bar>ch2 (data ! i)\<bar>
      in if \<not> in_trigger \<and> current_current > trigger_threshold
              \<and> prev_current \<le> trigger_threshold
         then (trigger_points @
                 [\<lparr>tp_time = time (data ! i), tp_index = i, tp_current = ch2 (data ! i)\<rparr>],
               True)
         else if in_trigger \<and> current_current \<le> trigger_threshold
         then (trigger_points, False)
         else (trigger_points, in_trigger))"

text \<open>The loop state on entry to iteration \<open>n\<close>, that is after the iterations
  \<open>1, ..., n - 1\<close>.\<close>

definition trigger_loop :: "sample list \<Rightarrow> real \<Rightarrow> nat \<Rightarrow> trigger_point list \<times> bool" where
  "trigger_loop data trigger_threshold n =
     fold (trigger_step data trigger_threshold) [1..<n] ([], False)"

definition detect_triggers :: "sample list \<Rightarrow> real \<Rightarrow> trigger_point list" where
  "detect_triggers data trigger_threshold =
     fst (trigger_loop data trigger_threshold (length data))"

definition in_trigger_before :: "sample list \<Rightarrow> real \<Rightarrow> nat \<Rightarrow> bool" where
  "in_trigger_before data trigger_threshold i = snd (trigger_loop data trigger_threshold i)"

section \<open>Metric calculation\<close>

text \<open>\<^verbatim>\<open>AnalysisWorker.calculate_analysis\<close>, statement by statement.  The two list
  comprehensions of squares can raise OverflowError.  In the sample rate,
  \<^verbatim>\<open>duration / 1000\<close> is the float quotient, which can be zero for a positive duration;
  the division of \<^verbatim>\<open>len(times)\<close> by it then raises ZeroDivisionError.\<close>

definition calculate_analysis :: "sample list \<Rightarrow> real \<Rightarrow> py_error + analysis_dict" where
  "calculate_analysis data trigger_threshold =
     (if data = [] then Inr EmptyDict
      else
        let times = map time data;
            ch1_values = map ch1 data;
            ch2_values = map ch2 data
        in
        bind_res (py_min ch1_values) (\<lambda>c1_min.
        bind_res (py_max ch1_values) (\<lambda>c1_max.
        let c1_peak_to_peak = (c1_max - c1_min) * 1000 in
        bind_res (py_min ch2_values) (\<lambda>c2_min.
        bind_res (py_max ch2_values) (\<lambda>c2_max.
        let c2_peak_to_peak = c2_max - c2_min in
        bind_res (py_squares ch1_values) (\<lambda>ch1_squares.
        let c1_rms = sqrt (np_mean ch1_squares) in
        bind_res (py_squares ch2_values) (\<lambda>ch2_squares.
        let c2_rms = sqrt (np_mean ch2_squares);
            c1_noise = np_std ch1_values * 1000;
            trigger_points = detect_triggers data trigger_threshold
        in
        bind_res (calculate_ringdown ch1_values) (\<lambda>rd.
        bind_res
          (if length times > 1
           then bind_res (py_max times) (\<lambda>t_max.
                bind_res (py_min times) (\<lambda>t_min.
                let dur = t_max - t_min in
                if dur > 0
                then py_truediv (real (length times)) (float_quotient dur 1000)
                else Inr 0))
           else Inr 0) (\<lambda>rate.
        bind_res
          (if times \<noteq> []
           then bind_res (py_max times) (\<lambda>t_max.
                bind_res (py_min times) (\<lambda>t_min. Inr (t_max - t_min)))
           else Inr 0) (\<lambda>dur.
        bind_res (if times \<noteq> [] then py_min times else Inr 0) (\<lambda>t_start.
        bind_res (if times \<noteq> [] then py_max times else Inr 0) (\<lambda>t_end.
        Inr (Analysis
          \<lparr>raw_data = data,
           an_ch1 = \<lparr>ch1_min = c1_min, ch1_max = c1_max, ch1_peak_to_peak = c1_peak_to_peak,
                     ch1_rms = c1_rms, ch1_noise = c1_noise, ch1_ringdown = rd\<rparr>,
           an_ch2 = \<lparr>ch2_min = c2_min, ch2_max = c2_max, ch2_peak_to_peak = c2_peak_to_peak,
                     ch2_rms = c2_rms\<rparr>,
           an_trigger = \<lparr>threshold = trigger_threshold, points = trigger_points,
                         count = length trigger_points\<rparr>,
           an_metadata = \<lparr>data_points = length data, sample_rate = rate, duration = dur,
                          time_start = t_start, time_end = t_end\<rparr>\<rparr>)))))))))))))"

section \<open>Waveform parser\<close>

text \<open>The file content is a \<open>string\<close> as Python's text mode delivers it (line ends
  already translated to the newline character; code points below 256).
  \<^verbatim>\<open>readlines\<close> cuts it after every newline and keeps the newline in the line.\<close>

fun readlines :: "string \<Rightarrow> string list" where
  "readlines [] = []"
| "readlines (c # cs) =
     (if c = CHR 0x0A then [c] # readlines cs
      else (case readlines cs of [] \<Rightarrow> [[c]] | l # ls \<Rightarrow> (c # l) # ls))"

definition header :: string where
  "header = ''TIME,CH1,CH2''"

text \<open>\<^verbatim>\<open>needle in line\<close> on strings: a contiguous occurrence.\<close>

definition py_in :: "string \<Rightarrow> string \<Rightarrow> bool" where
  "py_in needle line = sublist needle line"

text \<open>The search loop for the header: the index of the first line containing it,
  \<open>- 1\<close> when the loop ends without a \<^verbatim>\<open>break\<close>.\<close>

fun find_data_start :: "string list \<Rightarrow> int \<Rightarrow> int" where
  "find_data_start [] i = - 1"
| "find_data_start (line # lines) i =
     (if py_in header line then i else find_data_start lines (i + 1))"

text \<open>\<^verbatim>\<open>str.strip()\<close>: removes leading and trailing whitespace characters.\<close>

definition py_isspace :: "char \<Rightarrow> bool" where
  "py_isspace c = (c \<in> set [CHR 0x20, CHR 0x09, CHR 0x0A, CHR 0x0B, CHR 0x0C, CHR 0x0D,
                            CHR 0x1C, CHR 0x1D, CHR 0x1E, CHR 0x1F, CHR 0x85, CHR 0xA0])"

definition py_strip :: "string \<Rightarrow> string" where
  "py_strip s = rev (dropWhile py_isspace (rev (dropWhile py_isspace s)))"

text \<open>\<^verbatim>\<open>s.split(sep)\<close> for a one-character separator: always at least one part.\<close>

fun py_split :: "char \<Rightarrow> string \<Rightarrow> string list" where
  "py_split sep [] = [[]]"
| "py_split sep (c # cs) =
     (if c = sep then [] # py_split sep cs
      else (case py_split sep cs of [] \<Rightarrow> [[c]] | p # ps \<Rightarrow> (c # p) # ps))"

text \<open>One row of the data loop.  \<^verbatim>\<open>float\<close> is the Python builtin; it is the
  parameter \<open>pyfloat\<close>, \<open>None\<close> where \<^verbatim>\<open>float\<close> raises ValueError (the row is then
  skipped by the \<^verbatim>\<open>except\<close> clause).\<close>

definition parse_row :: "(string \<Rightarrow> real option) \<Rightarrow> string \<Rightarrow> sample option" where
  "parse_row pyfloat raw_line =
     (let line = py_strip raw_line in
      if line \<noteq> [] then
        let parts = py_split CHR '','' line in
        if length parts \<ge> 3 then
          (case pyfloat (parts ! 0) of None \<Rightarrow> None | Some t \<Rightarrow>
          (case pyfloat (parts ! 1) of None \<Rightarrow> None | Some c1 \<Rightarrow>
          (case pyfloat (parts ! 2) of None \<Rightarrow> None | Some c2 \<Rightarrow>
             Some \<lparr>time = t * 1000, ch1 = c1, ch2 = c2\<rparr>)))
        else None
      else None)"

definition load_csv_data :: "(string \<Rightarrow> real option) \<Rightarrow> string \<Rightarrow> py_error + sample list" where
  "load_csv_data pyfloat content =
     (let lines = readlines content;
          data_start = find_data_start lines 0
      in if data_start = - 1 then Inl ValueError
         else Inr (List.map_filter (parse_row pyfloat) (drop (nat (data_start + 1)) lines)))"

text \<open>\<^verbatim>\<open>AnalysisWorker.run\<close>: the value passed to \<^verbatim>\<open>finished.emit\<close>.  Any exception
  ends in \<^verbatim>\<open>finished.emit({})\<close>.\<close>

definition run :: "(string \<Rightarrow> real option) \<Rightarrow> string \<Rightarrow> real \<Rightarrow> analysis_dict" where
  "run pyfloat content trigger_current =
     (case bind_res (load_csv_data pyfloat content)
             (\<lambda>data. calculate_analysis data trigger_current) of
        Inl e \<Rightarrow> EmptyDict
      | Inr analysis \<Rightarrow> analysis)"

text \<open>\<^verbatim>\<open>analysis.get('metadata')\<close>: absent from the empty dictionary.\<close>

fun get_metadata :: "analysis_dict \<Rightarrow> metadata option" where
  "get_metadata EmptyDict = None"
| "get_metadata (Analysis a) = Some (an_metadata a)"

section \<open>Pass/fail evaluation\<close>

text \<open>\<^verbatim>\<open>OscilloscopeAnalyzer.evaluate_pass_fail\<close>.  The spin boxes are the record
  \<open>limits\<close> and the argument \<open>trigger_current\<close>; the combo box holds one of the keys of
  \<^verbatim>\<open>test_type_configs\<close>.\<close>

datatype test_type = DTT | DTR | DC02 | DC03_Skid | IDOD

fun has_ringdown :: "test_type \<Rightarrow> bool" where
  "has_ringdown DTT = False"
| "has_ringdown DTR = False"
| "has_ringdown DC02 = True"
| "has_ringdown DC03_Skid = False"
| "has_ringdown IDOD = False"

record limits =
  peak_lsl :: real
  peak_usl :: real
  trigger_lsl :: real
  trigger_usl :: real
  noise_lsl :: real
  noise_usl :: real
  ringdown_lsl :: real
  ringdown_usl :: real

record verdict =
  overall :: string
  details :: "(string \<times> bool) list"

definition evaluate_pass_fail ::
  "analysis_dict option \<Rightarrow> limits \<Rightarrow> real \<Rightarrow> test_type \<Rightarrow> verdict" where
  "evaluate_pass_fail current_analysis lims trigger_current tt =
     (case current_analysis of
        None \<Rightarrow> \<lparr>overall = ''unknown'', details = []\<rparr>
      | Some EmptyDict \<Rightarrow> \<lparr>overall = ''unknown'', details = []\<rparr>
      | Some (Analysis a) \<Rightarrow>
          let c1 = an_ch1 a;
              results =
                [(''peak_to_peak'',
                    peak_lsl lims \<le> ch1_peak_to_peak c1 \<and> ch1_peak_to_peak c1 \<le> peak_usl lims),
                 (''trigger_current'',
                    trigger_lsl lims \<le> trigger_current \<and> trigger_current \<le> trigger_usl lims),
                 (''noise'',
                    noise_lsl lims \<le> ch1_noise c1 \<and> ch1_noise c1 \<le> noise_usl lims)];
              results =
                (if has_ringdown tt
                 then results @
                   [(''ringdown'',
                       ringdown_lsl lims \<le> ringdown_voltage (ch1_ringdown c1)
                       \<and> ringdown_voltage (ch1_ringdown c1) \<le> ringdown_usl lims)]
                 else results @ [(''ringdown'', True)])
          in \<lparr>overall = (if list_all snd results then ''pass'' else ''fail''),
              details = results\<rparr>)"

section \<open>Vocabulary of the proofs and concrete inputs\<close>

text \<open>Iteration \<open>i\<close> of the trigger loop appends an event exactly when \<open>fires\<close> holds
  on entry; \<open>event_at\<close> is the dictionary it appends.\<close>

definition fires :: "sample list \<Rightarrow> real \<Rightarrow> nat \<Rightarrow> bool" where
  "fires data thr i \<longleftrightarrow> \<not> in_trigger_before data thr i
      \<and> \<bar>ch2 (data ! (i - 1))\<bar> \<le> thr \<and> thr < \<bar>ch2 (data ! i)\<bar>"

definition event_at :: "sample list \<Rightarrow> nat \<Rightarrow> trigger_point" where
  "event_at data i = \<lparr>tp_time = time (data ! i), tp_index = i, tp_current = ch2 (data ! i)\<rparr>"

text \<open>The example scenario of the specification (times already in milliseconds).\<close>

definition example_scenario :: "sample list" where
  "example_scenario =
     [\<lparr>time = 0, ch1 = 0.10, ch2 = 0\<rparr>,
      \<lparr>time = 1, ch1 = 0.30, ch2 = 2\<rparr>,
      \<lparr>time = 2, ch1 = 0.05, ch2 = 0.5\<rparr>]"

text \<open>Two bursts above the threshold 1, separated by one sample below it.\<close>

definition two_bursts :: "sample list" where
  "two_bursts =
     [\<lparr>time = 0, ch1 = 0, ch2 = 0\<rparr>,
      \<lparr>time = 1, ch1 = 0, ch2 = 2\<rparr>,
      \<lparr>time = 2, ch1 = 0, ch2 = 3\<rparr>,
      \<lparr>time = 3, ch1 = 0, ch2 = 0.5\<rparr>,
      \<lparr>time = 4, ch1 = 0, ch2 = - 2\<rparr>]"

text \<open>Rows whose time column is not in increasing order, as the rows
  \<^verbatim>\<open>0,0,0\<close>, \<^verbatim>\<open>0.003,0,2\<close>, \<^verbatim>\<open>0.001,0,0\<close>, \<^verbatim>\<open>0.002,0,2\<close> parse.\<close>

definition unordered_times :: "sample list" where
  "unordered_times =
     [\<lparr>time = 0, ch1 = 0, ch2 = 0\<rparr>,
      \<lparr>time = 3, ch1 = 0, ch2 = 2\<rparr>,
      \<lparr>time = 1, ch1 = 0, ch2 = 0\<rparr>,
      \<lparr>time = 2, ch1 = 0, ch2 = 2\<rparr>]"

text \<open>A crossing at the third sample, after two samples below the threshold 1.\<close>

definition late_crossing :: "sample list" where
  "late_crossing =
     [\<lparr>time = 0, ch1 = 0, ch2 = 0\<rparr>,
      \<lparr>time = 1, ch1 = 0, ch2 = 0\<rparr>,
      \<lparr>time = 2, ch1 = 0, ch2 = 2\<rparr>]"


definition overflowing_current :: "sample list" where
  "overflowing_current = [\<lparr>time = 5, ch1 = 0, ch2 = - (2 ^ 512)\<rparr>]"

text \<open>Two samples whose times differ by the least positive double, \<open>2 ^ - 1074\<close>.\<close>

definition tiny_span :: "sample list" where
  "tiny_span =
     [\<lparr>time = 0, ch1 = 0, ch2 = 0\<rparr>,
      \<lparr>time = 1 / 2 ^ 1074, ch1 = 0, ch2 = 0\<rparr>]"

text \<open>Two samples taken at the same time.\<close>

definition zero_span :: "sample list" where
  "zero_span = [\<lparr>time = 7, ch1 = 1, ch2 = 2\<rparr>, \<lparr>time = 7, ch1 = 2, ch2 = 1\<rparr>]"

text \<open>Sixty channel-1 values with the peak \<open>- 4\<close> at index 10.\<close>

definition ringdown_example :: "real list" where
  "ringdown_example = replicate 10 1 @ [- 4] @ replicate 49 2"

text \<open>Sixty channel-1 values whose peak sits in the last twenty.\<close>

definition late_peak_example :: "real list" where
  "late_peak_example = replicate 45 1 @ [5] @ replicate 14 2"

text \<open>File contents: a header followed by a blank row and a two-field row; rows with no
  header; the header alone.\<close>

definition junk_rows :: string where
  "junk_rows = ''# export\<newline>TIME,CH1,CH2\<newline>\<newline>1,2\<newline>''"

definition headerless :: string where
  "headerless = ''0.0,0.1,0.2\<newline>0.001,0.3,2.0\<newline>''"

definition header_only :: string where
  "header_only = ''TIME,CH1,CH2\<newline>''"

definition example_limits :: limits where
  "example_limits =
     \<lparr>peak_lsl = 0, peak_usl = 300, trigger_lsl = 0, trigger_usl = 5,
      noise_lsl = 0, noise_usl = 200, ringdown_lsl = 10, ringdown_usl = 20\<rparr>"

definition example_analysis :: analysis where
  "example_analysis =
     \<lparr>raw_data = example_scenario,
      an_ch1 = \<lparr>ch1_min = 0.05, ch1_max = 0.30, ch1_peak_to_peak = 250, ch1_rms = 0.2,
                ch1_noise = 108, ch1_ringdown = zero_ringdown\<rparr>,
      an_ch2 = \<lparr>ch2_min = 0, ch2_max = 2, ch2_peak_to_peak = 2, ch2_rms = 1.2\<rparr>,
      an_trigger = \<lparr>threshold = 1,
                    points = [\<lparr>tp_time = 1, tp_index = 1, tp_current = 2\<rparr>], count = 1\<rparr>,
      an_metadata = \<lparr>data_points = 3, sample_rate = 1500, duration = 2,
                     time_start = 0, time_end = 2\<rparr>\<rparr>"

section \<open>Facts about the Python primitives\<close>

lemma bind_res_Inr: "bind_res (Inr v) f = f v"
  by (simp add: bind_res_def)

lemma bind_res_Inl: "bind_res (Inl e) f = Inl e"
  by (simp add: bind_res_def)

lemma py_max_nonempty:
  assumes "xs \<noteq> []"
  shows "py_max xs = Inr (Max (set xs))"
proof (cases xs)
  case Nil
  with assms show ?thesis by simp
next
  case (Cons a rest)
  then show ?thesis using Max.set_eq_fold[of a rest] by (simp add: py_max_def)
qed

lemma py_min_nonempty:
  assumes "xs \<noteq> []"
  shows "py_min xs = Inr (Min (set xs))"
proof (cases xs)
  case Nil
  with assms show ?thesis by simp
next
  case (Cons a rest)
  then show ?thesis using Min.set_eq_fold[of a rest] by (simp add: py_min_def)
qed

lemma peak_index_less: "xs \<noteq> [] \<Longrightarrow> peak_index xs < length xs"
proof (induction xs)
  case Nil
  then show ?case by simp
next
  case (Cons x xs)
  show ?case
  proof (cases "list_all (\<lambda>y. \<bar>y\<bar> \<le> \<bar>x\<bar>) xs")
    case True
    then show ?thesis by simp
  next
    case False
    then have "xs \<noteq> []" by auto
    with Cons.IH False show ?thesis by simp
  qed
qed

lemma Max_abs_Cons_head:
  assumes "list_all (\<lambda>y. \<bar>y\<bar> \<le> \<bar>x\<bar>) xs"
  shows "Max (set (map abs (x # xs))) = \<bar>x::real\<bar>"
proof (rule Max_eqI)
  show "finite (set (map abs (x # xs)))" by simp
  show "\<bar>x\<bar> \<in> set (map abs (x # xs))" by simp
  fix y assume "y \<in> set (map abs (x # xs))"
  with assms show "y \<le> \<bar>x\<bar>" by (auto simp: list_all_iff)
qed

lemma Max_abs_Cons_tail:
  assumes "\<not> list_all (\<lambda>y. \<bar>y\<bar> \<le> \<bar>x\<bar>) xs"
  shows "Max (set (map abs (x # xs))) = Max (set (map abs xs)) \<and> \<bar>x::real\<bar> < Max (set (map abs xs)) \<and> xs \<noteq> []"
proof -
  from assms obtain y where y: "y \<in> set xs" "\<bar>x\<bar> < \<bar>y\<bar>"
    by (auto simp: list_all_iff not_le)
  then have ne: "xs \<noteq> []" by auto
  have "\<bar>y\<bar> \<le> Max (set (map abs xs))" using y(1) by (intro Max_ge) auto
  with y(2) have lt: "\<bar>x\<bar> < Max (set (map abs xs))" by simp
  have "Max (set (map abs (x # xs))) = max \<bar>x\<bar> (Max (set (map abs xs)))"
    using ne by (simp add: Max_insert)
  with lt ne show ?thesis by simp
qed

lemma py_index_peak:
  "xs \<noteq> [] \<Longrightarrow> py_index (map abs xs) (Max (set (map abs xs))) = Inr (peak_index xs)"
proof (induction xs)
  case Nil
  then show ?case by simp
next
  case (Cons x xs)
  show ?case
  proof (cases "list_all (\<lambda>y. \<bar>y\<bar> \<le> \<bar>x\<bar>) xs")
    case True
    from Max_abs_Cons_head[OF True] True show ?thesis by simp
  next
    case False
    note t = Max_abs_Cons_tail[OF False]
    from t have ne: "xs \<noteq> []" by simp
    have "py_index (map abs (x # xs)) (Max (set (map abs (x # xs))))
          = py_index (\<bar>x\<bar> # map abs xs) (Max (set (map abs xs)))"
      using t by simp
    also have "\<dots> = Inr (Suc (peak_index xs))"
      using t Cons.IH[OF ne] by simp
    finally show ?thesis using False by simp
  qed
qed

lemma peak_index_is_max:
  "xs \<noteq> [] \<Longrightarrow> \<bar>xs ! peak_index xs\<bar> = Max (set (map abs xs))"
proof (induction xs)
  case Nil
  then show ?case by simp
next
  case (Cons x xs)
  show ?case
  proof (cases "list_all (\<lambda>y. \<bar>y\<bar> \<le> \<bar>x\<bar>) xs")
    case True
    from Max_abs_Cons_head[OF True] True show ?thesis by simp
  next
    case False
    note t = Max_abs_Cons_tail[OF False]
    with Cons.IH False show ?thesis by simp
  qed
qed

lemma peak_index_first:
  "i < peak_index xs \<Longrightarrow> \<bar>xs ! i\<bar> < \<bar>xs ! peak_index xs\<bar>"
proof (induction xs arbitrary: i)
  case Nil
  then show ?case by simp
next
  case (Cons x xs)
  show ?case
  proof (cases "list_all (\<lambda>y. \<bar>y\<bar> \<le> \<bar>x\<bar>) xs")
    case True
    with Cons.prems show ?thesis by simp
  next
    case False
    note t = Max_abs_Cons_tail[OF False]
    then have ne: "xs \<noteq> []" by simp
    have pk: "\<bar>xs ! peak_index xs\<bar> = Max (set (map abs xs))" by (rule peak_index_is_max[OF ne])
    show ?thesis
    proof (cases i)
      case 0
      with False t pk show ?thesis by simp
    next
      case (Suc j)
      with Cons.prems False have "j < peak_index xs" by simp
      from Cons.IH[OF this] Suc False show ?thesis by simp
    qed
  qed
qed

lemma peak_index_dominates:
  assumes "y \<in> set xs"
  shows "\<bar>y\<bar> \<le> \<bar>xs ! peak_index xs\<bar>"
proof -
  from assms have ne: "xs \<noteq> []" by auto
  have "\<bar>y\<bar> \<le> Max (set (map abs xs))" using assms by (intro Max_ge) auto
  then show ?thesis by (simp add: peak_index_is_max[OF ne])
qed

lemma py_getitem_first: "xs \<noteq> [] \<Longrightarrow> py_getitem xs 0 = Inr (hd xs)"
  by (cases xs) (simp_all add: py_getitem_def)

lemma py_getitem_last: "xs \<noteq> [] \<Longrightarrow> py_getitem xs (- 1) = Inr (last xs)"
proof -
  assume ne: "xs \<noteq> []"
  then have len: "Suc 0 \<le> length xs" by (cases xs) simp_all
  from ne have "nat (int (length xs) + - 1) = length xs - 1" by (cases xs) simp_all
  with ne len show ?thesis by (simp add: py_getitem_def last_conv_nth)
qed

lemma py_slice_window:
  "py_slice xs p (min (p + 100) (length xs)) = take 100 (drop p xs)"
proof -
  have "min (p + 100) (length xs) - p = min 100 (length xs - p)" by arith
  then show ?thesis by (simp add: py_slice_def min_def)
qed

lemma decay_estimate:
  assumes "w \<noteq> []"
  shows "bind_res (py_getitem w 0) (\<lambda>first.
          bind_res (py_getitem w (- 1)) (\<lambda>final.
          let initial_amp = \<bar>first\<bar>;
              final_amp = \<bar>final\<bar>;
              rv = (initial_amp - final_amp) * 1000
          in
          bind_res
            (if initial_amp > final_amp \<and> final_amp > 0
             then bind_res (py_truediv initial_amp final_amp) (\<lambda>q.
                    py_truediv (np_log q) (real (length w)))
             else Inr 0) (\<lambda>dc.
          Inr \<lparr>ringdown_voltage = rv, decay_constant = dc\<rparr>)))
        = Inr \<lparr>ringdown_voltage = (\<bar>hd w\<bar> - \<bar>last w\<bar>) * 1000,
               decay_constant =
                 (if \<bar>hd w\<bar> > \<bar>last w\<bar> \<and> \<bar>last w\<bar> > 0
                  then ln (\<bar>hd w\<bar> / \<bar>last w\<bar>) / real (length w) else 0)\<rparr>"
proof -
  have len: "real (length w) \<noteq> 0" using assms by simp
  show ?thesis
    unfolding py_getitem_first[OF assms] py_getitem_last[OF assms] bind_res_Inr Let_def
    using len by (simp add: bind_res_Inr py_truediv_def np_log_def)
qed

lemma calculate_ringdown_refines:
  "calculate_ringdown values = Inr (ringdown_reference values)"
proof (cases "length values < 50")
  case True
  then show ?thesis by (simp add: calculate_ringdown_def ringdown_reference_def)
next
  case False
  then have ne: "values \<noteq> []" by auto
  then have ne': "map abs values \<noteq> []" by simp
  let ?p = "peak_index values"
  have pm: "py_max (map abs values) = Inr (Max (set (map abs values)))"
    by (rule py_max_nonempty[OF ne'])
  have pi: "py_index (map abs values) (Max (set (map abs values))) = Inr ?p"
    by (rule py_index_peak[OF ne])
  have plt: "?p < length values" by (rule peak_index_less[OF ne])
  show ?thesis
  proof (cases "length values - 20 \<le> ?p")
    case True
    then have "int (length values) - 20 \<le> int ?p" by simp
    with False True show ?thesis
      by (simp add: calculate_ringdown_def ringdown_reference_def bind_res_Inr
            pm[simplified] pi[simplified])
  next
    case far: False
    then have nint: "\<not> int (length values) - 20 \<le> int ?p" by simp
    let ?w = "take 100 (drop ?p values)"
    have wne: "?w \<noteq> []" using plt by simp
    have wlen: "real (length ?w) \<noteq> 0" using wne by simp
    have g0: "py_getitem ?w 0 = Inr (hd ?w)" by (rule py_getitem_first[OF wne])
    have g1: "py_getitem ?w (- 1) = Inr (last ?w)" by (rule py_getitem_last[OF wne])
    have lhs: "calculate_ringdown values =
      bind_res (py_getitem ?w 0) (\<lambda>first.
          bind_res (py_getitem ?w (- 1)) (\<lambda>final.
          let initial_amp = \<bar>first\<bar>;
              final_amp = \<bar>final\<bar>;
              rv = (initial_amp - final_amp) * 1000
          in
          bind_res
            (if initial_amp > final_amp \<and> final_amp > 0
             then bind_res (py_truediv initial_amp final_amp) (\<lambda>q.
                    py_truediv (np_log q) (real (length ?w)))
             else Inr 0) (\<lambda>dc.
          Inr \<lparr>ringdown_voltage = rv, decay_constant = dc\<rparr>)))"
      unfolding calculate_ringdown_def Let_def pm bind_res_Inr pi py_slice_window
      using False nint by simp
    show ?thesis
      unfolding lhs decay_estimate[OF wne] using False far
      by (simp add: ringdown_reference_def Let_def)
  qed
qed

section \<open>Facts about the trigger loop\<close>

lemma trigger_loop_start: "n \<le> 1 \<Longrightarrow> trigger_loop data thr n = ([], False)"
  by (simp add: trigger_loop_def)

lemma trigger_loop_Suc:
  "1 \<le> n \<Longrightarrow> trigger_loop data thr (Suc n) = trigger_step data thr n (trigger_loop data thr n)"
  by (simp add: trigger_loop_def)

lemma trigger_points_Suc:
  assumes "1 \<le> n"
  shows "fst (trigger_loop data thr (Suc n)) =
           fst (trigger_loop data thr n) @ (if fires data thr n then [event_at data n] else [])"
  unfolding trigger_loop_Suc[OF assms]
  by (simp add: trigger_step_def fires_def in_trigger_before_def event_at_def Let_def)

lemma in_trigger_Suc:
  assumes "1 \<le> n"
  shows "in_trigger_before data thr (Suc n) \<longleftrightarrow>
           (if fires data thr n then True
            else in_trigger_before data thr n \<and> thr < \<bar>ch2 (data ! n)\<bar>)"
  unfolding in_trigger_before_def trigger_loop_Suc[OF assms]
  by (auto simp add: trigger_step_def fires_def in_trigger_before_def Let_def)

lemma in_trigger_prev_above:
  "in_trigger_before data thr n \<Longrightarrow> 2 \<le> n \<and> thr < \<bar>ch2 (data ! (n - 1))\<bar>"
proof (induction n)
  case 0
  then show ?case by (simp add: in_trigger_before_def trigger_loop_start)
next
  case (Suc n)
  show ?case
  proof (cases "1 \<le> n")
    case False
    with Suc.prems show ?thesis by (simp add: in_trigger_before_def trigger_loop_start)
  next
    case True
    from Suc.prems in_trigger_Suc[OF True, of data thr]
    show ?thesis using True by (auto simp: fires_def split: if_splits)
  qed
qed

lemma fires_iff_crossing:
  "fires data thr i \<longleftrightarrow> \<bar>ch2 (data ! (i - 1))\<bar> \<le> thr \<and> thr < \<bar>ch2 (data ! i)\<bar>"
  using in_trigger_prev_above[of data thr i] by (auto simp: fires_def)

lemma in_trigger_before_iff:
  "in_trigger_before data thr i \<longleftrightarrow>
     thr < \<bar>ch2 (data ! (i - 1))\<bar> \<and> (\<exists>k < i - 1. \<bar>ch2 (data ! k)\<bar> \<le> thr)"
proof (induction i)
  case 0
  then show ?case by (simp add: in_trigger_before_def trigger_loop_start)
next
  case (Suc n)
  show ?case
  proof (cases n)
    case 0
    then show ?thesis by (simp add: in_trigger_before_def trigger_loop_start)
  next
    case (Suc m)
    then have n1: "1 \<le> n" by simp
    have step: "in_trigger_before data thr (Suc n) \<longleftrightarrow>
           (if fires data thr n then True
            else in_trigger_before data thr n \<and> thr < \<bar>ch2 (data ! n)\<bar>)"
      by (rule in_trigger_Suc[OF n1])
    have f: "fires data thr n \<longleftrightarrow>
           \<bar>ch2 (data ! m)\<bar> \<le> thr \<and> thr < \<bar>ch2 (data ! n)\<bar>"
      using fires_iff_crossing[of data thr n] Suc by simp
    have ih: "in_trigger_before data thr n \<longleftrightarrow>
           thr < \<bar>ch2 (data ! m)\<bar> \<and> (\<exists>k < m. \<bar>ch2 (data ! k)\<bar> \<le> thr)"
      using Suc.IH Suc by simp
    have ex: "(\<exists>k < n. \<bar>ch2 (data ! k)\<bar> \<le> thr) \<longleftrightarrow>
           \<bar>ch2 (data ! m)\<bar> \<le> thr \<or> (\<exists>k < m. \<bar>ch2 (data ! k)\<bar> \<le> thr)"
      unfolding Suc by (auto simp: less_Suc_eq)
    show ?thesis
      unfolding step f ih using ex by auto
  qed
qed

lemma trigger_points_eq:
  "fst (trigger_loop data thr n) = map (event_at data) (filter (fires data thr) [1..<n])"
proof (induction n)
  case 0
  then show ?case by (simp add: trigger_loop_start)
next
  case (Suc n)
  show ?case
  proof (cases "1 \<le> n")
    case False
    then show ?thesis by (simp add: trigger_loop_start)
  next
    case True
    then show ?thesis using Suc.IH by (simp add: trigger_points_Suc)
  qed
qed

lemma detect_triggers_eq:
  "detect_triggers data thr = map (event_at data) (filter (fires data thr) [1..<length data])"
  by (simp add: detect_triggers_def trigger_points_eq)

lemma detect_triggers_crossings:
  "detect_triggers data thr =
     map (\<lambda>i. \<lparr>tp_time = time (data ! i), tp_index = i, tp_current = ch2 (data ! i)\<rparr>)
       (filter (\<lambda>i. \<bar>ch2 (data ! (i - 1))\<bar> \<le> thr \<and> thr < \<bar>ch2 (data ! i)\<bar>)
          [1..<length data])"
proof -
  have "fires data thr = (\<lambda>i. \<bar>ch2 (data ! (i - 1))\<bar> \<le> thr \<and> thr < \<bar>ch2 (data ! i)\<bar>)"
    by (rule ext) (rule fires_iff_crossing)
  moreover have "event_at data =
      (\<lambda>i. \<lparr>tp_time = time (data ! i), tp_index = i, tp_current = ch2 (data ! i)\<rparr>)"
    by (rule ext) (simp add: event_at_def)
  ultimately show ?thesis by (simp add: detect_triggers_eq)
qed

lemma trigger_indices:
  "map tp_index (detect_triggers data thr) = filter (fires data thr) [1..<length data]"
  by (simp add: detect_triggers_eq comp_def event_at_def)

lemma trigger_indices_sorted: "sorted_wrt (<) (map tp_index (detect_triggers data thr))"
  unfolding trigger_indices by (rule sorted_wrt_filter) simp

lemma trigger_point_shape:
  assumes "p \<in> set (detect_triggers data thr)"
  shows "p = event_at data (tp_index p) \<and> 1 \<le> tp_index p \<and> tp_index p < length data
         \<and> fires data thr (tp_index p)"
  using assms by (auto simp: detect_triggers_eq event_at_def)

section \<open>Facts about the metric calculation\<close>

lemma py_squares_overflow:
  "\<exists>v \<in> set vs. 2 ^ 512 \<le> \<bar>v\<bar> \<Longrightarrow> py_squares vs = Inl OverflowError"
proof (induction vs)
  case Nil
  then show ?case by simp
next
  case (Cons v vs)
  show ?case
  proof (cases "2 ^ 512 \<le> \<bar>v\<bar>")
    case True
    then show ?thesis by (simp add: py_pow2_def bind_res_Inl)
  next
    case False
    with Cons.prems have "\<exists>v \<in> set vs. 2 ^ 512 \<le> \<bar>v\<bar>" by simp
    from Cons.IH[OF this] False show ?thesis
      by (simp add: py_pow2_def bind_res_Inr bind_res_Inl)
  qed
qed

lemma py_squares_in_range:
  "\<forall>v \<in> set vs. \<bar>v\<bar> < 2 ^ 512 \<Longrightarrow> py_squares vs = Inr (map (\<lambda>v. v\<^sup>2) vs)"
  by (induction vs) (simp_all add: py_pow2_def bind_res_Inr)

lemma span_positive_many:
  assumes "data \<noteq> []" and "0 < Max (time ` set data) - Min (time ` set data)"
  shows "1 < length data"
proof (rule ccontr)
  assume "\<not> 1 < length data"
  with assms(1) obtain s where "data = [s]"
    by (cases data) auto
  with assms(2) show False by simp
qed

lemma sample_rate_step:
  assumes "data \<noteq> []"
  shows "(if length (map time data) > 1
           then bind_res (py_max (map time data)) (\<lambda>t_max.
                bind_res (py_min (map time data)) (\<lambda>t_min.
                if 0 < t_max - t_min
                then py_truediv (real (length (map time data)))
                       (float_quotient (t_max - t_min) 1000)
                else Inr 0))
           else Inr 0)
       = (if 0 < Max (time ` set data) - Min (time ` set data)
             \<and> (Max (time ` set data) - Min (time ` set data)) / 1000 \<le> 1 / 2 ^ 1075
          then Inl ZeroDivisionError
          else Inr (if 0 < Max (time ` set data) - Min (time ` set data)
                    then real (length data)
                         / ((Max (time ` set data) - Min (time ` set data)) / 1000)
                    else 0))"
proof -
  let ?d = "Max (time ` set data) - Min (time ` set data)"
  have m5: "py_min (map time data) = Inr (Min (time ` set data))"
    and m6: "py_max (map time data) = Inr (Max (time ` set data))"
    using assms by (simp_all add: py_min_nonempty py_max_nonempty)
  show ?thesis
  proof (cases "0 < ?d")
    case False
    then show ?thesis unfolding m5 m6 bind_res_Inr by simp
  next
    case True
    then have many: "1 < length data" by (rule span_positive_many[OF assms])
    have pos: "\<bar>?d / 1000\<bar> = ?d / 1000" using True by simp
    show ?thesis
    proof (cases "?d / 1000 \<le> 1 / 2 ^ 1075")
      case tiny: True
      then have "float_quotient ?d 1000 = 0"
        unfolding float_quotient_def pos by simp
      with True tiny many show ?thesis
        unfolding m5 m6 bind_res_Inr by (simp add: py_truediv_def)
    next
      case large: False
      then have q: "float_quotient ?d 1000 = ?d / 1000"
        unfolding float_quotient_def pos by simp
      have "?d / 1000 \<noteq> 0" using True by simp
      with True large many show ?thesis
        unfolding m5 m6 bind_res_Inr q by (simp add: py_truediv_def)
    qed
  qed
qed

lemma duration_step:
  assumes "data \<noteq> []"
  shows "(if map time data \<noteq> []
           then bind_res (py_max (map time data)) (\<lambda>t_max.
                bind_res (py_min (map time data)) (\<lambda>t_min. Inr (t_max - t_min)))
           else Inr 0)
        = Inr (Max (time ` set data) - Min (time ` set data))"
  using assms by (simp add: py_min_nonempty py_max_nonempty bind_res_Inr)

lemma time_bounds_step:
  assumes "data \<noteq> []"
  shows "(if map time data \<noteq> [] then py_min (map time data) else Inr 0)
           = Inr (Min (time ` set data))"
    and "(if map time data \<noteq> [] then py_max (map time data) else Inr 0)
           = Inr (Max (time ` set data))"
  using assms by (simp_all add: py_min_nonempty py_max_nonempty)

lemma calculate_analysis_overflow:
  assumes "data \<noteq> []"
    and "\<exists>s \<in> set data. 2 ^ 512 \<le> \<bar>ch1 s\<bar> \<or> 2 ^ 512 \<le> \<bar>ch2 s\<bar>"
  shows "calculate_analysis data thr = Inl OverflowError"
proof -
  have m1: "py_min (map ch1 data) = Inr (Min (ch1 ` set data))"
    and m2: "py_max (map ch1 data) = Inr (Max (ch1 ` set data))"
    and m3: "py_min (map ch2 data) = Inr (Min (ch2 ` set data))"
    and m4: "py_max (map ch2 data) = Inr (Max (ch2 ` set data))"
    using assms(1) by (simp_all add: py_min_nonempty py_max_nonempty)
  show ?thesis
  proof (cases "\<exists>v \<in> set (map ch1 data). 2 ^ 512 \<le> \<bar>v\<bar>")
    case True
    show ?thesis
      unfolding calculate_analysis_def Let_def m1 m2 m3 m4 bind_res_Inr
        py_squares_overflow[OF True] bind_res_Inl
      using assms(1) by (simp only: if_False simp_thms)
  next
    case False
    then have ok: "\<forall>v \<in> set (map ch1 data). \<bar>v\<bar> < 2 ^ 512" by (simp add: not_le)
    from False assms(2) have over: "\<exists>v \<in> set (map ch2 data). 2 ^ 512 \<le> \<bar>v\<bar>" by auto
    show ?thesis
      unfolding calculate_analysis_def Let_def m1 m2 m3 m4 bind_res_Inr
        py_squares_in_range[OF ok] py_squares_overflow[OF over] bind_res_Inl
      using assms(1) by (simp only: if_False simp_thms)
  qed
qed

lemma calculate_analysis_in_range:
  assumes "data \<noteq> []"
    and "\<forall>s \<in> set data. \<bar>ch1 s\<bar> < 2 ^ 512 \<and> \<bar>ch2 s\<bar> < 2 ^ 512"
  shows "calculate_analysis data thr =
     (if 0 < Max (time ` set data) - Min (time ` set data)
         \<and> (Max (time ` set data) - Min (time ` set data)) / 1000 \<le> 1 / 2 ^ 1075
      then Inl ZeroDivisionError
      else Inr (Analysis
          \<lparr>raw_data = data,
           an_ch1 = \<lparr>ch1_min = Min (ch1 ` set data), ch1_max = Max (ch1 ` set data),
                     ch1_peak_to_peak = (Max (ch1 ` set data) - Min (ch1 ` set data)) * 1000,
                     ch1_rms = sqrt (np_mean (map (\<lambda>v. v\<^sup>2) (map ch1 data))),
                     ch1_noise = np_std (map ch1 data) * 1000,
                     ch1_ringdown = ringdown_reference (map ch1 data)\<rparr>,
           an_ch2 = \<lparr>ch2_min = Min (ch2 ` set data), ch2_max = Max (ch2 ` set data),
                     ch2_peak_to_peak = Max (ch2 ` set data) - Min (ch2 ` set data),
                     ch2_rms = sqrt (np_mean (map (\<lambda>v. v\<^sup>2) (map ch2 data)))\<rparr>,
           an_trigger = \<lparr>threshold = thr, points = detect_triggers data thr,
                         count = length (detect_triggers data thr)\<rparr>,
           an_metadata = \<lparr>data_points = length data,
                          sample_rate =
                            (if 0 < Max (time ` set data) - Min (time ` set data)
                             then real (length data)
                                  / ((Max (time ` set data) - Min (time ` set data)) / 1000)
                             else 0),
                          duration = Max (time ` set data) - Min (time ` set data),
                          time_start = Min (time ` set data),
                          time_end = Max (time ` set data)\<rparr>\<rparr>))"
proof -
  have m1: "py_min (map ch1 data) = Inr (Min (ch1 ` set data))"
    and m2: "py_max (map ch1 data) = Inr (Max (ch1 ` set data))"
    and m3: "py_min (map ch2 data) = Inr (Min (ch2 ` set data))"
    and m4: "py_max (map ch2 data) = Inr (Max (ch2 ` set data))"
    using assms(1) by (simp_all add: py_min_nonempty py_max_nonempty)
  have ok1: "\<forall>v \<in> set (map ch1 data). \<bar>v\<bar> < 2 ^ 512"
    and ok2: "\<forall>v \<in> set (map ch2 data). \<bar>v\<bar> < 2 ^ 512"
    using assms(2) by simp_all
  show ?thesis
  proof (cases "0 < Max (time ` set data) - Min (time ` set data)
         \<and> (Max (time ` set data) - Min (time ` set data)) / 1000 \<le> 1 / 2 ^ 1075")
    case True
    show ?thesis
      unfolding calculate_analysis_def Let_def m1 m2 m3 m4 bind_res_Inr
        py_squares_in_range[OF ok1] py_squares_in_range[OF ok2]
        calculate_ringdown_refines sample_rate_step[OF assms(1)]
      using assms(1) True by (simp only: if_False if_True simp_thms bind_res_Inl)
  next
    case False
    show ?thesis
      unfolding calculate_analysis_def Let_def m1 m2 m3 m4 bind_res_Inr
        py_squares_in_range[OF ok1] py_squares_in_range[OF ok2]
        calculate_ringdown_refines sample_rate_step[OF assms(1)]
        duration_step[OF assms(1)] time_bounds_step[OF assms(1)]
      using assms(1) False by (simp only: if_False bind_res_Inr)
  qed
qed


section \<open>Facts about the parser\<close>

lemma concat_readlines: "concat (readlines s) = s"
proof (induction s)
  case Nil
  then show ?case by simp
next
  case (Cons c cs)
  then show ?case by (cases "readlines cs") (auto split: if_splits)
qed

lemma readlines_line_sublist:
  assumes "line \<in> set (readlines s)"
  shows "sublist line s"
proof -
  from assms obtain us vs where "readlines s = us @ line # vs"
    by (auto simp: in_set_conv_decomp)
  then have "concat (readlines s) = concat us @ line @ concat vs" by simp
  then have "s = concat us @ line @ concat vs" by (simp add: concat_readlines)
  then show ?thesis by (auto simp: sublist_def)
qed

lemma find_data_start_none:
  "\<forall>line \<in> set lines. \<not> py_in header line \<Longrightarrow> find_data_start lines i = - 1"
  by (induction lines arbitrary: i) simp_all

lemma find_data_start_found:
  "0 \<le> i \<Longrightarrow> \<exists>line \<in> set lines. py_in header line \<Longrightarrow> i \<le> find_data_start lines i"
proof (induction lines arbitrary: i)
  case Nil
  then show ?case by simp
next
  case (Cons l ls)
  show ?case
  proof (cases "py_in header l")
    case True
    then show ?thesis by simp
  next
    case False
    with Cons.prems have "\<exists>line \<in> set ls. py_in header line" by simp
    with Cons.IH[of "i + 1"] Cons.prems(1) False show ?thesis by fastforce
  qed
qed

lemma no_header_no_line:
  assumes "\<not> py_in header content"
  shows "\<forall>line \<in> set (readlines content). \<not> py_in header line"
proof
  fix line assume "line \<in> set (readlines content)"
  then have "sublist line content" by (rule readlines_line_sublist)
  with assms show "\<not> py_in header line"
    unfolding py_in_def using sublist_order.order_trans by blast
qed

lemma calculate_analysis_empty: "calculate_analysis [] thr = Inr EmptyDict"
  by (simp add: calculate_analysis_def)

section \<open>Evaluation on the concrete inputs\<close>

lemma example_scenario_triggers:
  "detect_triggers example_scenario 1 = [\<lparr>tp_time = 1, tp_index = 1, tp_current = 2\<rparr>]"
  by (simp add: detect_triggers_def trigger_loop_def example_scenario_def upt_rec
        trigger_step_def)

lemma example_scenario_state:
  "\<not> in_trigger_before example_scenario 1 1 \<and> in_trigger_before example_scenario 1 2"
  by (simp add: in_trigger_before_def trigger_loop_def example_scenario_def upt_rec
        trigger_step_def)

lemma late_crossing_triggers:
  "detect_triggers late_crossing 1 = [\<lparr>tp_time = 2, tp_index = 2, tp_current = 2\<rparr>]"
  by (simp add: detect_triggers_def trigger_loop_def late_crossing_def upt_rec
        trigger_step_def)

lemma two_bursts_triggers:
  "detect_triggers two_bursts 1 =
     [\<lparr>tp_time = 1, tp_index = 1, tp_current = 2\<rparr>,
      \<lparr>tp_time = 4, tp_index = 4, tp_current = - 2\<rparr>]"
  by (simp add: detect_triggers_def trigger_loop_def two_bursts_def upt_rec trigger_step_def)

lemma unordered_times_triggers:
  "detect_triggers unordered_times 1 =
     [\<lparr>tp_time = 3, tp_index = 1, tp_current = 2\<rparr>,
      \<lparr>tp_time = 2, tp_index = 3, tp_current = 2\<rparr>]"
  by (simp add: detect_triggers_def trigger_loop_def unordered_times_def upt_rec
        trigger_step_def)

lemma ringdown_example_reference:
  "ringdown_reference ringdown_example = \<lparr>ringdown_voltage = 2000, decay_constant = ln 2 / 50\<rparr>"
  by (simp add: ringdown_reference_def ringdown_example_def Let_def eval_nat_numeral
        zero_ringdown_def)

lemma late_peak_example_reference: "ringdown_reference late_peak_example = zero_ringdown"
  by (simp add: ringdown_reference_def late_peak_example_def Let_def eval_nat_numeral)

lemma junk_rows_start: "find_data_start (readlines junk_rows) 0 = 1"
  by (simp add: junk_rows_def py_in_def header_def sublist_code)

lemma junk_rows_rest:
  "drop (nat (find_data_start (readlines junk_rows) 0 + 1)) (readlines junk_rows)
     = [''\<newline>'', ''1,2\<newline>'']"
  unfolding junk_rows_start by (simp add: junk_rows_def)

lemma blank_row_skipped: "parse_row pyfloat ''\<newline>'' = None"
  by (simp add: parse_row_def py_strip_def py_isspace_def)

lemma short_row_skipped: "parse_row pyfloat ''1,2\<newline>'' = None"
  by (simp add: parse_row_def py_strip_def py_isspace_def)

section \<open>The claims\<close>

text \<open>
  C1 (as the code has it).  When the text contains the header row and no valid data row
  follows it, \<^verbatim>\<open>load_csv_data\<close> returns the empty list without raising, and
  \<^verbatim>\<open>calculate_analysis\<close> answers the empty list with the empty dictionary: the run
  emits \<^verbatim>\<open>{}\<close>, which has no metadata entry (no \<^verbatim>\<open>data_points\<close>, no \<^verbatim>\<open>sample_rate\<close>).
\<close>

theorem header_without_rows:
  assumes "\<exists>line \<in> set (readlines content). py_in header line"
    and "\<forall>line \<in> set (drop (nat (find_data_start (readlines content) 0 + 1))
                          (readlines content)).
           parse_row pyfloat line = None"
  shows "load_csv_data pyfloat content = Inr []
         \<and> calculate_analysis [] trigger_current = Inr EmptyDict
         \<and> run pyfloat content trigger_current = EmptyDict
         \<and> get_metadata (run pyfloat content trigger_current) = None"
proof -
  from find_data_start_found[OF _ assms(1), of 0]
  have "find_data_start (readlines content) 0 \<noteq> - 1" by simp
  moreover have "List.map_filter (parse_row pyfloat)
      (drop (nat (find_data_start (readlines content) 0 + 1)) (readlines content)) = []"
    using assms(2) by (simp add: List.map_filter_def filter_empty_conv)
  ultimately have l: "load_csv_data pyfloat content = Inr []"
    by (simp add: load_csv_data_def Let_def)
  then show ?thesis by (simp add: run_def bind_res_Inr calculate_analysis_empty)
qed

theorem header_without_rows_witness:
  "(\<exists>line \<in> set (readlines junk_rows). py_in header line)
   \<and> map (parse_row Map.empty)
         (drop (nat (find_data_start (readlines junk_rows) 0 + 1)) (readlines junk_rows))
       = [None, None]
   \<and> load_csv_data Map.empty junk_rows = Inr []
   \<and> run Map.empty junk_rows 1 = EmptyDict
   \<and> get_metadata (run Map.empty junk_rows 1) = None"
proof -
  have h1: "\<exists>line \<in> set (readlines junk_rows). py_in header line"
    by (simp add: junk_rows_def py_in_def header_def sublist_code)
  have h2: "\<forall>line \<in> set (drop (nat (find_data_start (readlines junk_rows) 0 + 1))
                         (readlines junk_rows)).
          parse_row Map.empty line = None"
    unfolding junk_rows_rest by (simp add: blank_row_skipped short_row_skipped)
  have h3: "map (parse_row Map.empty)
         (drop (nat (find_data_start (readlines junk_rows) 0 + 1)) (readlines junk_rows))
       = [None, None]"
    unfolding junk_rows_rest by (simp add: blank_row_skipped short_row_skipped)
  from header_without_rows[OF h1 h2, of 1] h1 h3 show ?thesis by simp
qed

text \<open>
  C1 (as the specification states it) fails on the header alone: the parse succeeds with
  no samples, and the run then emits the empty dictionary, with no metadata, the very value
  it emits for a file without header.
\<close>

theorem header_only_counterexample:
  "load_csv_data Map.empty header_only = Inr []
   \<and> run Map.empty header_only 1 = EmptyDict
   \<and> get_metadata (run Map.empty header_only 1) = None
   \<and> run Map.empty header_only 1 = run Map.empty headerless 1"
  by (simp add: load_csv_data_def run_def bind_res_def calculate_analysis_empty
        py_in_def header_def sublist_code List.map_filter_simps header_only_def headerless_def)

text \<open>
  C2.  For a computed analysis, the details hold the four criteria in the order
  \<^verbatim>\<open>peak_to_peak\<close>, \<^verbatim>\<open>trigger_current\<close>, \<^verbatim>\<open>noise\<close>, \<^verbatim>\<open>ringdown\<close>; each is the
  inclusive test \<open>lsl \<le> value \<le> usl\<close>; the ringdown entry is true for every test type
  without a ringdown requirement; and the overall verdict is \<^verbatim>\<open>pass\<close> exactly when all
  four entries are true, \<^verbatim>\<open>fail\<close> otherwise.
\<close>

theorem evaluate_pass_fail_criteria:
  "map fst (details (evaluate_pass_fail (Some (Analysis a)) lims trigger_current tt))
     = [''peak_to_peak'', ''trigger_current'', ''noise'', ''ringdown'']
   \<and> map snd (details (evaluate_pass_fail (Some (Analysis a)) lims trigger_current tt))
     = [peak_lsl lims \<le> ch1_peak_to_peak (an_ch1 a)
          \<and> ch1_peak_to_peak (an_ch1 a) \<le> peak_usl lims,
        trigger_lsl lims \<le> trigger_current \<and> trigger_current \<le> trigger_usl lims,
        noise_lsl lims \<le> ch1_noise (an_ch1 a) \<and> ch1_noise (an_ch1 a) \<le> noise_usl lims,
        has_ringdown tt \<longrightarrow>
          ringdown_lsl lims \<le> ringdown_voltage (ch1_ringdown (an_ch1 a))
          \<and> ringdown_voltage (ch1_ringdown (an_ch1 a)) \<le> ringdown_usl lims]
   \<and> (overall (evaluate_pass_fail (Some (Analysis a)) lims trigger_current tt) = ''pass''
        \<longleftrightarrow> (\<forall>r \<in> set (details (evaluate_pass_fail (Some (Analysis a)) lims trigger_current tt)).
               snd r))
   \<and> (overall (evaluate_pass_fail (Some (Analysis a)) lims trigger_current tt) = ''fail''
        \<longleftrightarrow> \<not> (\<forall>r \<in> set (details (evaluate_pass_fail (Some (Analysis a)) lims trigger_current tt)).
               snd r))"
  by (cases "has_ringdown tt") (simp_all add: evaluate_pass_fail_def Let_def)

theorem evaluate_pass_fail_criteria_witness:
  "overall (evaluate_pass_fail (Some (Analysis example_analysis)) example_limits 1 DTT) = ''pass''
   \<and> map snd (details (evaluate_pass_fail (Some (Analysis example_analysis))
                            example_limits 1 DTT)) = [True, True, True, True]
   \<and> overall (evaluate_pass_fail (Some (Analysis example_analysis)) example_limits 1 DC02) = ''fail''
   \<and> map snd (details (evaluate_pass_fail (Some (Analysis example_analysis))
                            example_limits 1 DC02)) = [True, True, True, False]"
  using evaluate_pass_fail_criteria[of example_analysis example_limits 1 DTT]
    evaluate_pass_fail_criteria[of example_analysis example_limits 1 DC02]
  by (simp add: evaluate_pass_fail_def example_analysis_def example_limits_def zero_ringdown_def)

text \<open>
  C3.  For every channel-1 sequence the ringdown estimator returns, without raising, the
  value of the reference definition: the zero sentinel below 50 samples or when the peak
  index lies in the last 20 samples, otherwise the two-point estimate over the window of
  up to 100 samples from the peak.  The peak index of the reference is the first index of
  maximum absolute value.
\<close>

theorem calculate_ringdown_reference:
  "calculate_ringdown values = Inr (ringdown_reference values)
   \<and> (values \<noteq> [] \<longrightarrow>
        peak_index values < length values
        \<and> (\<forall>i < length values. \<bar>values ! i\<bar> \<le> \<bar>values ! peak_index values\<bar>)
        \<and> (\<forall>i < peak_index values. \<bar>values ! i\<bar> < \<bar>values ! peak_index values\<bar>))"
  using calculate_ringdown_refines peak_index_less peak_index_first peak_index_dominates
  by (metis nth_mem)

theorem calculate_ringdown_reference_witness:
  "calculate_ringdown ringdown_example
     = Inr \<lparr>ringdown_voltage = 2000, decay_constant = ln 2 / 50\<rparr>
   \<and> peak_index ringdown_example = 10
   \<and> calculate_ringdown late_peak_example = Inr zero_ringdown
   \<and> calculate_ringdown [0.1, - 0.3, 0.05] = Inr zero_ringdown"
proof -
  have "peak_index ringdown_example = 10"
    by (simp add: ringdown_example_def eval_nat_numeral)
  moreover have "ringdown_reference [0.1, - 0.3, 0.05] = zero_ringdown"
    by (simp add: ringdown_reference_def)
  ultimately show ?thesis
    using calculate_ringdown_reference[of ringdown_example]
      calculate_ringdown_reference[of late_peak_example]
      calculate_ringdown_reference[of "[0.1, - 0.3, 0.05]"]
    by (simp add: ringdown_example_reference late_peak_example_reference)
qed

text \<open>
  C4.  An event with index \<open>i\<close> is emitted exactly when \<open>1 \<le> i < len(data)\<close>, the
  detector is not in a trigger on entry to iteration \<open>i\<close>, the previous magnitude is at
  most the threshold and the current magnitude exceeds it.  The state itself is determined
  by the samples: on entry to iteration \<open>i\<close> the detector is in a trigger exactly when
  the previous magnitude exceeds the threshold and some earlier sample was at or below it;
  hence an event is emitted at every index \<open>i \<ge> 1\<close> with a previous magnitude at most
  the threshold and a current magnitude above it, and at no other.  The events are those
  crossings in index order, each carrying the time, the index and the signed channel-2
  value of its sample; no event has index 0, and no index is reported twice.  This holds
  for every threshold, positive or not.
\<close>

theorem trigger_event_iff:
  "((\<exists>p \<in> set (detect_triggers data thr). tp_index p = i) \<longleftrightarrow>
      (1 \<le> i \<and> i < length data \<and> \<not> in_trigger_before data thr i
       \<and> \<bar>ch2 (data ! (i - 1))\<bar> \<le> thr \<and> thr < \<bar>ch2 (data ! i)\<bar>))
   \<and> ((\<exists>p \<in> set (detect_triggers data thr). tp_index p = i) \<longleftrightarrow>
      (1 \<le> i \<and> i < length data
       \<and> \<bar>ch2 (data ! (i - 1))\<bar> \<le> thr \<and> thr < \<bar>ch2 (data ! i)\<bar>))
   \<and> (i \<le> length data \<longrightarrow>
        (in_trigger_before data thr i \<longleftrightarrow>
           thr < \<bar>ch2 (data ! (i - 1))\<bar> \<and> (\<exists>k < i - 1. \<bar>ch2 (data ! k)\<bar> \<le> thr)))
   \<and> detect_triggers data thr =
        map (\<lambda>i. \<lparr>tp_time = time (data ! i), tp_index = i, tp_current = ch2 (data ! i)\<rparr>)
          (filter (\<lambda>i. \<bar>ch2 (data ! (i - 1))\<bar> \<le> thr \<and> thr < \<bar>ch2 (data ! i)\<bar>)
             [1..<length data])
   \<and> (\<forall>p \<in> set (detect_triggers data thr).
         tp_time p = time (data ! tp_index p) \<and> tp_current p = ch2 (data ! tp_index p)
         \<and> tp_index p \<noteq> 0)
   \<and> distinct (map tp_index (detect_triggers data thr))"
proof (intro conjI)
  have idx: "(\<exists>p \<in> set (detect_triggers data thr). tp_index p = i)
          \<longleftrightarrow> 1 \<le> i \<and> i < length data \<and> fires data thr i"
  proof -
    have "(\<exists>p \<in> set (detect_triggers data thr). tp_index p = i)
          \<longleftrightarrow> i \<in> set (map tp_index (detect_triggers data thr))"
      by auto
    also have "\<dots> \<longleftrightarrow> 1 \<le> i \<and> i < length data \<and> fires data thr i"
      unfolding trigger_indices by auto
    finally show ?thesis .
  qed
  show "(\<exists>p \<in> set (detect_triggers data thr). tp_index p = i) \<longleftrightarrow>
      (1 \<le> i \<and> i < length data \<and> \<not> in_trigger_before data thr i
       \<and> \<bar>ch2 (data ! (i - 1))\<bar> \<le> thr \<and> thr < \<bar>ch2 (data ! i)\<bar>)"
    unfolding idx by (auto simp: fires_def)
  show "(\<exists>p \<in> set (detect_triggers data thr). tp_index p = i) \<longleftrightarrow>
      (1 \<le> i \<and> i < length data
       \<and> \<bar>ch2 (data ! (i - 1))\<bar> \<le> thr \<and> thr < \<bar>ch2 (data ! i)\<bar>)"
    unfolding idx fires_iff_crossing by simp
  show "i \<le> length data \<longrightarrow>
        (in_trigger_before data thr i \<longleftrightarrow>
           thr < \<bar>ch2 (data ! (i - 1))\<bar> \<and> (\<exists>k < i - 1. \<bar>ch2 (data ! k)\<bar> \<le> thr))"
    using in_trigger_before_iff[of data thr i] by simp
  show "detect_triggers data thr =
        map (\<lambda>i. \<lparr>tp_time = time (data ! i), tp_index = i, tp_current = ch2 (data ! i)\<rparr>)
          (filter (\<lambda>i. \<bar>ch2 (data ! (i - 1))\<bar> \<le> thr \<and> thr < \<bar>ch2 (data ! i)\<bar>)
             [1..<length data])"
    by (rule detect_triggers_crossings)
  show "\<forall>p \<in> set (detect_triggers data thr).
         tp_time p = time (data ! tp_index p) \<and> tp_current p = ch2 (data ! tp_index p)
         \<and> tp_index p \<noteq> 0"
  proof
    fix p assume "p \<in> set (detect_triggers data thr)"
    from trigger_point_shape[OF this]
    have "p = event_at data (tp_index p)" and "1 \<le> tp_index p" by simp_all
    then show "tp_time p = time (data ! tp_index p) \<and> tp_current p = ch2 (data ! tp_index p)
         \<and> tp_index p \<noteq> 0"
      by (metis event_at_def not_one_le_zero trigger_point.select_convs(1,3))
  qed
  show "distinct (map tp_index (detect_triggers data thr))"
    unfolding trigger_indices by simp
qed

theorem trigger_event_iff_witness:
  "detect_triggers example_scenario 1 = [\<lparr>tp_time = 1, tp_index = 1, tp_current = 2\<rparr>]
   \<and> (\<exists>p \<in> set (detect_triggers example_scenario 1). tp_index p = 1)
   \<and> \<not> in_trigger_before example_scenario 1 1
   \<and> \<not> (\<exists>p \<in> set (detect_triggers example_scenario 1). tp_index p = 2)
   \<and> in_trigger_before example_scenario 1 2
   \<and> detect_triggers late_crossing 1 = [\<lparr>tp_time = 2, tp_index = 2, tp_current = 2\<rparr>]
   \<and> (\<exists>p \<in> set (detect_triggers late_crossing 1). tp_index p = 2)
   \<and> \<not> in_trigger_before late_crossing 1 2"
proof -
  have l: "(2::nat) \<le> length late_crossing" by (simp add: late_crossing_def)
  have "\<not> (1 < \<bar>ch2 (late_crossing ! (2 - 1))\<bar>
            \<and> (\<exists>k < 2 - 1. \<bar>ch2 (late_crossing ! k)\<bar> \<le> (1::real)))"
    by (simp add: late_crossing_def)
  with trigger_event_iff[of late_crossing 1 2] l
  have s: "\<not> in_trigger_before late_crossing 1 2" by blast
  from trigger_event_iff[of example_scenario 1 1] trigger_event_iff[of example_scenario 1 2] s
  show ?thesis
    by (simp add: example_scenario_triggers example_scenario_state late_crossing_triggers)
qed

text \<open>
  C5.  Between two consecutive events, at indices \<open>i < j\<close>, some sample \<open>k\<close> with
  \<open>i \<le> k < j\<close> has a channel-2 magnitude at most the threshold (the sample before
  \<open>j\<close> is one): no second event while the magnitude stays above the threshold.
\<close>

theorem trigger_hysteresis:
  assumes "Suc n < length (detect_triggers data thr)"
  shows "tp_index (detect_triggers data thr ! n) < tp_index (detect_triggers data thr ! Suc n)
    \<and> tp_index (detect_triggers data thr ! Suc n) < length data
    \<and> (\<exists>k. tp_index (detect_triggers data thr ! n) \<le> k
           \<and> k < tp_index (detect_triggers data thr ! Suc n)
           \<and> \<bar>ch2 (data ! k)\<bar> \<le> thr)"
proof -
  let ?ps = "detect_triggers data thr"
  let ?i = "tp_index (?ps ! n)" and ?j = "tp_index (?ps ! Suc n)"
  have len: "n < length ?ps" using assms by simp
  have "sorted_wrt (<) (map tp_index ?ps)" by (rule trigger_indices_sorted)
  then have "map tp_index ?ps ! n < map tp_index ?ps ! Suc n"
    using assms by (simp add: sorted_wrt_iff_nth_less)
  then have lt: "?i < ?j" using assms len by simp
  have "?ps ! Suc n \<in> set ?ps" using assms by simp
  from trigger_point_shape[OF this]
  have jlen: "?j < length data" and f: "fires data thr ?j" by simp_all
  from f have "\<bar>ch2 (data ! (?j - 1))\<bar> \<le> thr" by (simp add: fires_def)
  moreover have "?i \<le> ?j - 1" "?j - 1 < ?j" using lt by simp_all
  ultimately show ?thesis using lt jlen by blast
qed

theorem trigger_hysteresis_witness:
  "Suc 0 < length (detect_triggers two_bursts 1)
   \<and> tp_index (detect_triggers two_bursts 1 ! 0) = 1
   \<and> tp_index (detect_triggers two_bursts 1 ! Suc 0) = 4
   \<and> (\<exists>k. tp_index (detect_triggers two_bursts 1 ! 0) \<le> k
          \<and> k < tp_index (detect_triggers two_bursts 1 ! Suc 0)
          \<and> \<bar>ch2 (two_bursts ! k)\<bar> \<le> 1)"
proof -
  have h: "Suc 0 < length (detect_triggers two_bursts 1)"
    by (simp add: two_bursts_triggers)
  from trigger_hysteresis[OF h] h show ?thesis
    by (simp add: two_bursts_triggers)
qed




text \<open>
  C7.  When the header \<^verbatim>\<open>TIME,CH1,CH2\<close> occurs nowhere in the text,
  \<^verbatim>\<open>load_csv_data\<close> raises ValueError (the format error of the specification) whatever
  the rows are, and the run emits the empty dictionary: no partial result.
\<close>

theorem missing_header_fails:
  assumes "\<not> py_in header content"
  shows "load_csv_data pyfloat content = Inl ValueError
         \<and> run pyfloat content trigger_current = EmptyDict"
proof -
  have "find_data_start (readlines content) 0 = - 1"
    by (rule find_data_start_none[OF no_header_no_line[OF assms]])
  then have "load_csv_data pyfloat content = Inl ValueError"
    by (simp add: load_csv_data_def)
  then show ?thesis by (simp add: run_def bind_res_Inl)
qed

theorem missing_header_fails_witness:
  "\<not> py_in header headerless
   \<and> load_csv_data Map.empty headerless = Inl ValueError
   \<and> run Map.empty headerless 1 = EmptyDict"
proof -
  have h: "\<not> py_in header headerless"
    by (simp add: py_in_def header_def headerless_def sublist_code)
  from missing_header_fails[OF h, of Map.empty 1] h show ?thesis by simp
qed

text \<open>
  C8 (as the code has it).  The sample indices of the emitted events are strictly
  increasing; when the sample times are strictly increasing in sequence order, so are the
  event times.
\<close>

theorem trigger_times_increasing:
  "sorted_wrt (<) (map tp_index (detect_triggers data thr))
   \<and> (sorted_wrt (<) (map time data) \<longrightarrow>
        sorted_wrt (<) (map tp_time (detect_triggers data thr)))"
proof (intro conjI impI)
  show idx: "sorted_wrt (<) (map tp_index (detect_triggers data thr))"
    by (rule trigger_indices_sorted)
  assume st: "sorted_wrt (<) (map time data)"
  have "sorted_wrt (\<lambda>p q. tp_time p < tp_time q) (detect_triggers data thr)"
  proof (rule sorted_wrt_mono_rel[where P = "\<lambda>p q. tp_index p < tp_index q"])
    show "sorted_wrt (\<lambda>p q. tp_index p < tp_index q) (detect_triggers data thr)"
      using idx by (simp add: sorted_wrt_map)
    fix p q
    assume p: "p \<in> set (detect_triggers data thr)" and q: "q \<in> set (detect_triggers data thr)"
      and lt: "tp_index p < tp_index q"
    from trigger_point_shape[OF p] have pe: "tp_time p = time (data ! tp_index p)"
      by (metis event_at_def trigger_point.select_convs(1))
    from trigger_point_shape[OF q] have qe: "tp_time q = time (data ! tp_index q)"
      by (metis event_at_def trigger_point.select_convs(1))
    from trigger_point_shape[OF q] have ql: "tp_index q < length data" by simp
    from st lt ql have "map time data ! tp_index p < map time data ! tp_index q"
      by (simp add: sorted_wrt_iff_nth_less)
    with lt ql pe qe show "tp_time p < tp_time q" by simp
  qed
  then show "sorted_wrt (<) (map tp_time (detect_triggers data thr))"
    by (simp add: sorted_wrt_map)
qed

theorem trigger_times_increasing_witness:
  "sorted_wrt (<) (map time two_bursts)
   \<and> map tp_time (detect_triggers two_bursts 1) = [1, 4]
   \<and> sorted_wrt (<) (map tp_time (detect_triggers two_bursts 1))"
proof -
  have h: "sorted_wrt (<) (map time two_bursts)" by (simp add: two_bursts_def)
  from trigger_times_increasing[of two_bursts 1] h
  have "sorted_wrt (<) (map tp_time (detect_triggers two_bursts 1))" by blast
  with h show ?thesis by (simp add: two_bursts_triggers)
qed

text \<open>
  C8 (as the specification states it) fails on rows whose times are not in increasing
  order: the two events are emitted in index order, with the times 3 and 2.
\<close>

theorem trigger_times_counterexample:
  "map tp_time (detect_triggers unordered_times 1) = [3, 2]
   \<and> \<not> sorted_wrt (<) (map tp_time (detect_triggers unordered_times 1))"
  by (simp add: unordered_times_triggers)

text \<open>
  C9 (as the code has it).  For a non-empty sequence of finite samples: whenever the
  analysis is returned, the duration is the maximum minus the minimum time and the sample
  rate is \<open>data_points / (duration / 1000)\<close> when the duration is positive and 0
  otherwise.  When the duration is zero or its thousandth is not rounded to zero, no
  ZeroDivisionError is raised, and the analysis is returned provided every channel-1 and
  channel-2 value has a magnitude below \<open>2 ^ 512\<close>; under that proviso a single sample
  or a zero duration gives the sample rate 0 and the duration 0, without an error.
\<close>

theorem sample_rate_when_returned:
  assumes "data \<noteq> []"
  shows "(\<forall>a. calculate_analysis data thr = Inr (Analysis a) \<longrightarrow>
            data_points (an_metadata a) = length data
            \<and> duration (an_metadata a) = Max (time ` set data) - Min (time ` set data)
            \<and> sample_rate (an_metadata a) =
                 (if duration (an_metadata a) > 0
                  then real (data_points (an_metadata a)) / (duration (an_metadata a) / 1000)
                  else 0))
       \<and> (Max (time ` set data) - Min (time ` set data) = 0
            \<or> 1 / 2 ^ 1075 < (Max (time ` set data) - Min (time ` set data)) / 1000
          \<longrightarrow> calculate_analysis data thr \<noteq> Inl ZeroDivisionError)
       \<and> ((\<forall>s \<in> set data. \<bar>ch1 s\<bar> < 2 ^ 512 \<and> \<bar>ch2 s\<bar> < 2 ^ 512)
            \<and> (Max (time ` set data) - Min (time ` set data) = 0
                 \<or> 1 / 2 ^ 1075 < (Max (time ` set data) - Min (time ` set data)) / 1000)
          \<longrightarrow> (\<exists>a. calculate_analysis data thr = Inr (Analysis a)))
       \<and> ((length data = 1 \<or> Max (time ` set data) - Min (time ` set data) = 0)
            \<and> (\<forall>s \<in> set data. \<bar>ch1 s\<bar> < 2 ^ 512 \<and> \<bar>ch2 s\<bar> < 2 ^ 512)
          \<longrightarrow> (\<exists>a. calculate_analysis data thr = Inr (Analysis a)
                  \<and> sample_rate (an_metadata a) = 0 \<and> duration (an_metadata a) = 0))"
proof -
  let ?d = "Max (time ` set data) - Min (time ` set data)"
  have single: "?d = 0" if "length data = 1"
  proof -
    from that obtain s where "data = [s]" by (cases data) auto
    then show ?thesis by simp
  qed
  show ?thesis
  proof (cases "\<forall>s \<in> set data. \<bar>ch1 s\<bar> < 2 ^ 512 \<and> \<bar>ch2 s\<bar> < 2 ^ 512")
    case False
    then have "\<exists>s \<in> set data. 2 ^ 512 \<le> \<bar>ch1 s\<bar> \<or> 2 ^ 512 \<le> \<bar>ch2 s\<bar>"
      by (auto simp: not_less)
    from calculate_analysis_overflow[OF assms this, of thr] False show ?thesis by simp
  next
    case True
    note eq = calculate_analysis_in_range[OF assms True, of thr]
    show ?thesis
    proof (cases "0 < ?d \<and> ?d / 1000 \<le> 1 / 2 ^ 1075")
      case tiny: True
      then have "calculate_analysis data thr = Inl ZeroDivisionError"
        unfolding eq by (simp only: if_True simp_thms)
      with tiny single show ?thesis by auto
    next
      case ok: False
      then have r: "calculate_analysis data thr = Inr (Analysis
          \<lparr>raw_data = data,
           an_ch1 = \<lparr>ch1_min = Min (ch1 ` set data), ch1_max = Max (ch1 ` set data),
                     ch1_peak_to_peak = (Max (ch1 ` set data) - Min (ch1 ` set data)) * 1000,
                     ch1_rms = sqrt (np_mean (map (\<lambda>v. v\<^sup>2) (map ch1 data))),
                     ch1_noise = np_std (map ch1 data) * 1000,
                     ch1_ringdown = ringdown_reference (map ch1 data)\<rparr>,
           an_ch2 = \<lparr>ch2_min = Min (ch2 ` set data), ch2_max = Max (ch2 ` set data),
                     ch2_peak_to_peak = Max (ch2 ` set data) - Min (ch2 ` set data),
                     ch2_rms = sqrt (np_mean (map (\<lambda>v. v\<^sup>2) (map ch2 data)))\<rparr>,
           an_trigger = \<lparr>threshold = thr, points = detect_triggers data thr,
                         count = length (detect_triggers data thr)\<rparr>,
           an_metadata = \<lparr>data_points = length data,
                          sample_rate =
                            (if 0 < ?d then real (length data) / (?d / 1000) else 0),
                          duration = ?d,
                          time_start = Min (time ` set data),
                          time_end = Max (time ` set data)\<rparr>\<rparr>)"
        unfolding eq by (simp only: if_False simp_thms)
      show ?thesis unfolding r using single by auto
    qed
  qed
qed

theorem sample_rate_when_returned_witness:
  "example_scenario \<noteq> []
   \<and> (\<exists>a. calculate_analysis example_scenario 1 = Inr (Analysis a)
          \<and> data_points (an_metadata a) = 3 \<and> duration (an_metadata a) = 2
          \<and> sample_rate (an_metadata a) = 1500)
   \<and> (\<exists>a. calculate_analysis zero_span 1 = Inr (Analysis a)
          \<and> data_points (an_metadata a) = 2 \<and> duration (an_metadata a) = 0
          \<and> sample_rate (an_metadata a) = 0)
   \<and> calculate_analysis zero_span 1 \<noteq> Inl ZeroDivisionError"
proof -
  have z: "zero_span \<noteq> []" by (simp add: zero_span_def)
  have zd: "Max (time ` set zero_span) - Min (time ` set zero_span) = 0"
    and zl: "length zero_span = 2"
    and zr: "\<forall>s \<in> set zero_span. \<bar>ch1 s\<bar> < 2 ^ 512 \<and> \<bar>ch2 s\<bar> < 2 ^ 512"
    by (simp_all add: zero_span_def)
  note zt = sample_rate_when_returned[OF z, of 1]
  from zt zd zr
  obtain a where a: "calculate_analysis zero_span 1 = Inr (Analysis a)"
    "sample_rate (an_metadata a) = 0" "duration (an_metadata a) = 0"
    by blast
  from zt a(1) have "data_points (an_metadata a) = length zero_span" by blast
  with a zl have a2: "\<exists>a. calculate_analysis zero_span 1 = Inr (Analysis a)
          \<and> data_points (an_metadata a) = 2 \<and> duration (an_metadata a) = 0
          \<and> sample_rate (an_metadata a) = 0"
    by auto
  from zt zd have a3: "calculate_analysis zero_span 1 \<noteq> Inl ZeroDivisionError" by blast
  have h: "example_scenario \<noteq> []" by (simp add: example_scenario_def)
  have r: "\<forall>s \<in> set example_scenario. \<bar>ch1 s\<bar> < 2 ^ 512 \<and> \<bar>ch2 s\<bar> < 2 ^ 512"
    by (simp add: example_scenario_def)
  have d: "Max (time ` set example_scenario) - Min (time ` set example_scenario) = 2"
    and l: "length example_scenario = 3"
    by (simp_all add: example_scenario_def)
  have "\<not> (0 < (2::real) \<and> (2::real) / 1000 \<le> 1 / 2 ^ 1075)" by simp
  with calculate_analysis_in_range[OF h r, of 1]
  obtain b where b: "calculate_analysis example_scenario 1 = Inr (Analysis b)"
    unfolding d by auto
  from sample_rate_when_returned[OF h, of 1] b
  have "data_points (an_metadata b) = 3 \<and> duration (an_metadata b) = 2
          \<and> sample_rate (an_metadata b) =
               (if duration (an_metadata b) > 0
                then real (data_points (an_metadata b)) / (duration (an_metadata b) / 1000)
                else 0)"
    unfolding d l by blast
  then have "data_points (an_metadata b) = 3 \<and> duration (an_metadata b) = 2
          \<and> sample_rate (an_metadata b) = 1500"
    by auto
  with b have a1: "\<exists>a. calculate_analysis example_scenario 1 = Inr (Analysis a)
          \<and> data_points (an_metadata a) = 3 \<and> duration (an_metadata a) = 2
          \<and> sample_rate (an_metadata a) = 1500"
    by blast
  from h a1 a2 a3 show ?thesis by blast
qed

text \<open>
  C9 (as the specification states it) fails twice.  A single sample whose channel-2 value
  is \<open>- 2 ^ 512\<close> gives OverflowError, not a result with the sample rate 0.  Two samples
  whose times differ by \<open>2 ^ - 1074\<close> pass the guard \<^verbatim>\<open>duration > 0\<close>, the quotient
  \<^verbatim>\<open>duration / 1000\<close> is rounded to zero, and the division raises ZeroDivisionError.
\<close>

theorem sample_rate_counterexample:
  "calculate_analysis overflowing_current 1 = Inl OverflowError
   \<and> length overflowing_current = 1
   \<and> calculate_analysis tiny_span 1 = Inl ZeroDivisionError
   \<and> 0 < Max (time ` set tiny_span) - Min (time ` set tiny_span)"
proof -
  have h: "overflowing_current \<noteq> []" by (simp add: overflowing_current_def)
  have "\<exists>s \<in> set overflowing_current. 2 ^ 512 \<le> \<bar>ch1 s\<bar> \<or> 2 ^ 512 \<le> \<bar>ch2 s\<bar>"
    by (simp add: overflowing_current_def)
  from calculate_analysis_overflow[OF h this]
  have o: "calculate_analysis overflowing_current 1 = Inl OverflowError" .
  have t: "tiny_span \<noteq> []" by (simp add: tiny_span_def)
  have r: "\<forall>s \<in> set tiny_span. \<bar>ch1 s\<bar> < 2 ^ 512 \<and> \<bar>ch2 s\<bar> < 2 ^ 512"
    by (simp add: tiny_span_def)
  have d: "Max (time ` set tiny_span) - Min (time ` set tiny_span) = 1 / 2 ^ 1074"
    by (simp add: tiny_span_def)
  have u: "0 < (1::real) / 2 ^ 1074 \<and> (1::real) / 2 ^ 1074 / 1000 \<le> 1 / 2 ^ 1075"
    by simp
  have z: "calculate_analysis tiny_span 1 = Inl ZeroDivisionError"
    unfolding calculate_analysis_in_range[OF t r] d using u by (simp only: if_True simp_thms)
  from o z d show ?thesis by (simp add: overflowing_current_def)
qed

text \<open>
  C10.  For every channel-1 sequence the ringdown estimator returns, without raising, a
  ringdown voltage that is not negative: the sentinel has the voltage 0, and otherwise the
  window starts at a sample of greatest absolute value in the whole sequence, so the
  absolute value of its first sample is at least that of its last.
\<close>

theorem ringdown_voltage_nonneg:
  "\<exists>r. calculate_ringdown values = Inr r \<and> 0 \<le> ringdown_voltage r
       \<and> (length values < 50 \<or> length values - 20 \<le> peak_index values
            \<longrightarrow> ringdown_voltage r = 0)
       \<and> (\<not> (length values < 50 \<or> length values - 20 \<le> peak_index values)
            \<longrightarrow> ringdown_voltage r =
                  (\<bar>values ! peak_index values\<bar>
                   - \<bar>last (take 100 (drop (peak_index values) values))\<bar>) * 1000
                \<and> \<bar>last (take 100 (drop (peak_index values) values))\<bar>
                    \<le> \<bar>values ! peak_index values\<bar>)"
proof (cases "length values < 50 \<or> length values - 20 \<le> peak_index values")
  case True
  then show ?thesis
    unfolding calculate_ringdown_refines
    by (auto simp add: ringdown_reference_def zero_ringdown_def)
next
  case False
  let ?p = "peak_index values"
  let ?w = "take 100 (drop ?p values)"
  from False have plt: "?p < length values" by auto
  then have wne: "?w \<noteq> []" by simp
  have hdw: "hd ?w = values ! ?p" using plt by (simp add: hd_drop_conv_nth)
  have "last ?w \<in> set ?w" using wne by (rule last_in_set)
  then have "last ?w \<in> set values" by (meson in_set_dropD in_set_takeD)
  then have "\<bar>last ?w\<bar> \<le> \<bar>values ! ?p\<bar>" by (rule peak_index_dominates)
  with False hdw show ?thesis
    unfolding calculate_ringdown_refines by (simp add: ringdown_reference_def Let_def)
qed

theorem ringdown_voltage_nonneg_witness:
  "\<exists>r. calculate_ringdown ringdown_example = Inr r \<and> ringdown_voltage r = 2000
       \<and> 0 \<le> ringdown_voltage r"
proof -
  from ringdown_voltage_nonneg[of ringdown_example]
  obtain r where r: "calculate_ringdown ringdown_example = Inr r" "0 \<le> ringdown_voltage r"
    by blast
  from r(1) have "r = \<lparr>ringdown_voltage = 2000, decay_constant = ln 2 / 50\<rparr>"
    by (simp add: calculate_ringdown_refines ringdown_example_reference)
  with r show ?thesis by simp
qed

end
